theory Spec2Isabelle
  imports Complex_Main
begin

section \<open>The peak parameterizer: results table and reporting\<close>

text \<open>
  A shallow embedding of \<^verbatim>\<open>src/peak_parameters.py\<close>: the flag parser
  \<^verbatim>\<open>parse_error_values\<close>, the sweep loop of \<^verbatim>\<open>PeakAnalyst.find_peaks\<close>, the
  three-axis table \<^verbatim>\<open>ResultsContainer\<close> and the \<^verbatim>\<open>Exporter\<close> (the index
  \<^verbatim>\<open>summarize\<close>, the CSV export and the console table).

  The script is a Python 2 program. It opens the CSV file in mode \<^verbatim>\<open>'wb'\<close> and
  hands rows of \<^verbatim>\<open>str\<close> to \<^verbatim>\<open>csv.writer\<close>, which Python 3 rejects on the first
  row, and it drives the GRASS 6 scripting interface (\<^verbatim>\<open>g.remove rast=\<close>,
  \<^verbatim>\<open>v.select ainput=\<close>), which runs under Python 2 only; the file has no
  \<^verbatim>\<open>from __future__ import division\<close>. So \<^verbatim>\<open>/\<close> between two \<^verbatim>\<open>int\<close>s is
  floor division, and a dictionary is iterated in an order of its own, fixed for a
  given dictionary.
\<close>

subsection \<open>Python values and exceptions\<close>

text \<open>The exceptions the modelled code can raise.\<close>

datatype error =
  ValueError | TypeError | IndexError | KeyError | ZeroDivisionError | Exception

text \<open>
  What a cell of the results table holds: the placeholder \<^verbatim>\<open>[]\<close> that
  \<^verbatim>\<open>ResultsContainer.__init__\<close> puts there, or a count (the callers of
  \<^verbatim>\<open>add_error\<close> pass \<^verbatim>\<open>len(...)\<close> of a query result).
\<close>

datatype cell = Unset | Count int

text \<open>
  The values that stand on the slope-threshold axis, in a CSV row and in a field of the
  console table: an \<^verbatim>\<open>int\<close>, a \<^verbatim>\<open>str\<close> or the empty list.
\<close>

datatype pyval = PInt int | PStr string | PEmptyList

definition val_of_cell :: "cell \<Rightarrow> pyval" where
  "val_of_cell c = (case c of Unset \<Rightarrow> PEmptyList | Count n \<Rightarrow> PInt n)"

text \<open>Sequencing of computations that may raise: the first exception wins.\<close>

definition bind_err :: "error + 'a \<Rightarrow> ('a \<Rightarrow> error + 'b) \<Rightarrow> error + 'b" where
  "bind_err m f = (case m of Inl e \<Rightarrow> Inl e | Inr x \<Rightarrow> f x)"

subsection \<open>Strings\<close>

definition digit_char :: "nat \<Rightarrow> char" where
  "digit_char d = char_of (48 + d)"

text \<open>\<^verbatim>\<open>str\<close> of a non-negative integer: its decimal digits, most significant first.\<close>

fun str_nat :: "nat \<Rightarrow> string" where
  "str_nat n = (if n < 10 then [digit_char n] else str_nat (n div 10) @ [digit_char (n mod 10)])"

declare str_nat.simps [simp del]

definition str_int :: "int \<Rightarrow> string" where
  "str_int i = (if i < 0 then CHR ''-'' # str_nat (nat (- i)) else str_nat (nat i))"

text \<open>\<^verbatim>\<open>str(x)\<close> for the values above; \<^verbatim>\<open>str([])\<close> is \<^verbatim>\<open>'[]'\<close>.\<close>

definition py_str :: "pyval \<Rightarrow> string" where
  "py_str v = (case v of PInt i \<Rightarrow> str_int i | PStr s \<Rightarrow> s | PEmptyList \<Rightarrow> ''[]'')"

text \<open>\<^verbatim>\<open>s.ljust(n)\<close> and \<^verbatim>\<open>s.rjust(n)\<close>: pad with spaces, never shorten.\<close>

definition ljust :: "string \<Rightarrow> nat \<Rightarrow> string" where
  "ljust s n = s @ replicate (n - length s) CHR '' ''"

definition rjust :: "string \<Rightarrow> nat \<Rightarrow> string" where
  "rjust s n = replicate (n - length s) CHR '' '' @ s"

text \<open>\<^verbatim>\<open>s.replace(' ', '_')\<close>.\<close>

definition replace_space :: "string \<Rightarrow> string" where
  "replace_space s = map (\<lambda>c. if c = CHR '' '' then CHR ''_'' else c) s"

text \<open>
  \<^verbatim>\<open>xs.index(x)\<close>: the position of the first element equal to \<^verbatim>\<open>x\<close>;
  \<^verbatim>\<open>ValueError\<close> when there is none.
\<close>

fun py_index :: "'a list \<Rightarrow> 'a \<Rightarrow> error + nat" where
  "py_index [] x = Inl ValueError"
| "py_index (y # ys) x =
     (if y = x then Inr 0
      else (case py_index ys x of Inl e \<Rightarrow> Inl e | Inr i \<Rightarrow> Inr (Suc i)))"

subsection \<open>Arithmetic on table cells (Python 2)\<close>

text \<open>
  \<^verbatim>\<open>a + b\<close>: integer addition; \<^verbatim>\<open>[] + []\<close> is \<^verbatim>\<open>[]\<close>; a list and an
  \<^verbatim>\<open>int\<close> do not add.
\<close>

definition py_add :: "cell \<Rightarrow> cell \<Rightarrow> error + cell" where
  "py_add a b =
     (case (a, b) of
        (Count x, Count y) \<Rightarrow> Inr (Count (x + y))
      | (Unset, Unset) \<Rightarrow> Inr Unset
      | _ \<Rightarrow> Inl TypeError)"

text \<open>\<^verbatim>\<open>a == 0\<close>: a list is never equal to \<^verbatim>\<open>0\<close>.\<close>

definition py_is_zero :: "cell \<Rightarrow> bool" where
  "py_is_zero a = (case a of Count x \<Rightarrow> x = 0 | Unset \<Rightarrow> False)"

text \<open>
  \<^verbatim>\<open>a / b\<close> in Python 2: on two \<^verbatim>\<open>int\<close>s the floor of the quotient
  (\<^verbatim>\<open>ZeroDivisionError\<close> for a zero divisor); a list does not divide.
\<close>

definition py_div :: "cell \<Rightarrow> cell \<Rightarrow> error + cell" where
  "py_div a b =
     (case (a, b) of
        (Count x, Count y) \<Rightarrow> (if y = 0 then Inl ZeroDivisionError else Inr (Count (x div y)))
      | _ \<Rightarrow> Inl TypeError)"

definition py_sub :: "cell \<Rightarrow> cell \<Rightarrow> error + cell" where
  "py_sub a b =
     (case (a, b) of
        (Count x, Count y) \<Rightarrow> Inr (Count (x - y))
      | _ \<Rightarrow> Inl TypeError)"

subsection \<open>Exporter.summarize\<close>

text \<open>
  \<^verbatim>\<open>
  if (tp + fn == 0):
      sensitivity = tp / 1
      falsepeaks_ratio =  fp / (1)
  else:
      sensitivity = tp / (tp + fn)
      falsepeaks_ratio =  fp / (tp + fn)
  result = sensitivity - falsepeaks_ratio
  \<close>
\<close>

definition summarize :: "cell \<Rightarrow> cell \<Rightarrow> cell \<Rightarrow> error + cell" where
  "summarize tp fp fn =
     bind_err (py_add tp fn) (\<lambda>s.
       if py_is_zero s then
         bind_err (py_div tp (Count 1)) (\<lambda>sensitivity.
         bind_err (py_div fp (Count 1)) (\<lambda>falsepeaks_ratio.
           py_sub sensitivity falsepeaks_ratio))
       else
         bind_err (py_add tp fn) (\<lambda>d1.
         bind_err (py_div tp d1) (\<lambda>sensitivity.
         bind_err (py_add tp fn) (\<lambda>d2.
         bind_err (py_div fp d2) (\<lambda>falsepeaks_ratio.
           py_sub sensitivity falsepeaks_ratio)))))"

subsection \<open>parse_error_values\<close>

text \<open>
  The flag dictionary of the GRASS parser, as the list of its (key, value) pairs in the
  order in which the dictionary iterates its keys.
\<close>

type_synonym flags = "(string \<times> bool) list"

text \<open>
  \<^verbatim>\<open>
  if 't' in error_values:
      error_values.remove('t')
      error_values.append('true positives')
  \<close>
  \<^verbatim>\<open>remove\<close> deletes the first occurrence.
\<close>

definition replace_flag :: "string \<Rightarrow> string \<Rightarrow> string list \<Rightarrow> string list" where
  "replace_flag k label evs = (if k \<in> set evs then remove1 k evs @ [label] else evs)"

text \<open>
  The loop over \<^verbatim>\<open>flags.keys()\<close> appends every key whose value is true, whatever
  the key; the four replacements follow in the order t, f, n, s.
\<close>

definition parse_error_values :: "flags \<Rightarrow> string list" where
  "parse_error_values flags =
     (let evs0 = filter (\<lambda>error_flag. map_of flags error_flag = Some True) (map fst flags);
          evs1 = replace_flag ''t'' ''true positives'' evs0;
          evs2 = replace_flag ''f'' ''false positives'' evs1;
          evs3 = replace_flag ''n'' ''false negatives'' evs2
      in replace_flag ''s'' ''summarize'' evs3)"

subsection \<open>ResultsContainer\<close>

text \<open>
  List objects that are reached through more than one name live in a store. The
  slope-threshold list is such an object: \<^verbatim>\<open>ResultsContainer.__init__\<close> keeps the
  caller's list (\<^verbatim>\<open>self.slope_thresholds = slope_thresholds\<close>, no copy), and
  \<^verbatim>\<open>Exporter.stdout\<close> binds a local name to it and updates it in place. The other
  fields of the container are never updated through a second name and are held by value.
\<close>

type_synonym ref = nat

type_synonym heap = "ref \<Rightarrow> pyval list"

record ResultsContainer =
  window_sizes :: "int list"
  slope_thresholds :: ref
  error_values :: "string list"
  window :: "cell list list list"

text \<open>
  \<^verbatim>\<open>__init__\<close>: one list per window size, in it one list per slope threshold, in it
  one \<^verbatim>\<open>[]\<close> per error value.
\<close>

definition ResultsContainer_init :: "heap \<Rightarrow> int list \<Rightarrow> ref \<Rightarrow> string list \<Rightarrow> ResultsContainer" where
  "ResultsContainer_init h ws r evs =
     \<lparr> window_sizes = ws, slope_thresholds = r, error_values = evs,
       window = map (\<lambda>i. map (\<lambda>j. map (\<lambda>k. Unset) [0..<length evs])
                                [0..<length (h r)])
                    [0..<length ws] \<rparr>"

text \<open>
  \<^verbatim>\<open>w[i][j][k] = v\<close>: each of the three subscripts raises \<^verbatim>\<open>IndexError\<close> out of
  range (the indices come from \<^verbatim>\<open>index\<close> and are never negative).
\<close>

definition set_cell :: "cell list list list \<Rightarrow> nat \<Rightarrow> nat \<Rightarrow> nat \<Rightarrow> cell \<Rightarrow> error + cell list list list" where
  "set_cell w i j k v =
     (if i < length w \<and> j < length (w ! i) \<and> k < length (w ! i ! j)
      then Inr (w[i := (w ! i)[j := (w ! i ! j)[k := v]]])
      else Inl IndexError)"

text \<open>
  \<^verbatim>\<open>add_error\<close> returns the exception raised, if any, with the store and the container
  as the call leaves them. The three lookups come before the only assignment.
\<close>

definition add_error ::
  "heap \<Rightarrow> ResultsContainer \<Rightarrow> int \<Rightarrow> pyval \<Rightarrow> string \<Rightarrow> int
     \<Rightarrow> error option \<times> heap \<times> ResultsContainer" where
  "add_error h c window_size slope_threshold error_type error_value =
     (case py_index (window_sizes c) window_size of
        Inl e \<Rightarrow> (Some e, h, c)
      | Inr window_index \<Rightarrow>
     (case py_index (h (slope_thresholds c)) slope_threshold of
        Inl e \<Rightarrow> (Some e, h, c)
      | Inr slope_index \<Rightarrow>
     (case py_index (error_values c) error_type of
        Inl e \<Rightarrow> (Some e, h, c)
      | Inr error_index \<Rightarrow>
     (case set_cell (window c) window_index slope_index error_index (Count error_value) of
        Inl e \<Rightarrow> (Some e, h, c)
      | Inr w \<Rightarrow> (None, h, c\<lparr>window := w\<rparr>)))))"

text \<open>
  The shape \<^verbatim>\<open>__init__\<close> gives the table: as many rows as window sizes, in each
  as many entries as slope thresholds, in each as many cells as error values.
\<close>

definition table_shape :: "heap \<Rightarrow> ResultsContainer \<Rightarrow> bool" where
  "table_shape h c =
     (length (window c) = length (window_sizes c)
      \<and> list_all (\<lambda>row. length row = length (h (slope_thresholds c))
                        \<and> list_all (\<lambda>cells. length cells = length (error_values c)) row)
                  (window c))"

subsection \<open>Exporter.exportToCsv\<close>

text \<open>
  A CSV file is modelled by the rows handed to \<^verbatim>\<open>csv.writer.writerow\<close>, in order,
  each row the list of Python values it was given; the directory is a map from paths to
  files. Opening a path for writing is taken to succeed.
\<close>

type_synonym csvfile = "pyval list list"

type_synonym filesystem = "string \<Rightarrow> csvfile option"

text \<open>\<^verbatim>\<open>xs[i]\<close> for an index that is not negative.\<close>

definition py_nth :: "'a list \<Rightarrow> nat \<Rightarrow> error + 'a" where
  "py_nth xs i = (if i < length xs then Inr (xs ! i) else Inl IndexError)"

text \<open>
  The table after \<^verbatim>\<open>evaluate_peaks\<close> has run for the three counts: the three labels
  stand on the error axis, and every cell vector holds a count at each of their
  positions (the position of \<^verbatim>\<open>'summarize'\<close>, if any, keeps its \<^verbatim>\<open>[]\<close>).
\<close>

definition counts_at :: "nat \<Rightarrow> nat \<Rightarrow> nat \<Rightarrow> cell list \<Rightarrow> bool" where
  "counts_at i j k cells = list_all (\<lambda>p. p < length cells \<and> cells ! p \<noteq> Unset) [i, j, k]"

definition counts_filled :: "ResultsContainer \<Rightarrow> bool" where
  "counts_filled c =
     (case py_index (error_values c) ''true positives'' of
        Inl e \<Rightarrow> False
      | Inr i \<Rightarrow>
     (case py_index (error_values c) ''false positives'' of
        Inl e \<Rightarrow> False
      | Inr j \<Rightarrow>
     (case py_index (error_values c) ''false negatives'' of
        Inl e \<Rightarrow> False
      | Inr k \<Rightarrow> list_all (list_all (counts_at i j k)) (window c))))"

text \<open>
  \<^verbatim>\<open>
  header = list(self.container.slope_thresholds)
  for i in range(len(header)):
      header[i] = 'threshold_' + str(header[i])
  header.reverse()
  header.append('window_size')
  header.reverse()
  \<close>
  The header is built on a copy: the store is only read.
\<close>

definition csv_header :: "pyval list \<Rightarrow> pyval list" where
  "csv_header thresholds =
     rev (rev (map (\<lambda>t. PStr (''threshold_'' @ py_str t)) thresholds) @ [PStr ''window_size''])"

text \<open>The body of the loop over thresholds: the value appended for one cell vector.\<close>

definition export_value :: "string \<Rightarrow> nat \<Rightarrow> nat \<Rightarrow> nat \<Rightarrow> cell list \<Rightarrow> error + pyval" where
  "export_value errTag tp_index fp_index fn_index cells =
     (if errTag = ''summarize'' then
        bind_err (py_nth cells tp_index) (\<lambda>tp.
        bind_err (py_nth cells fp_index) (\<lambda>fp.
        bind_err (py_nth cells fn_index) (\<lambda>fn.
        bind_err (summarize tp fp fn) (\<lambda>summary. Inr (val_of_cell summary)))))
      else if errTag = ''true positives'' then
        bind_err (py_nth cells tp_index) (\<lambda>v. Inr (val_of_cell v))
      else if errTag = ''false positives'' then
        bind_err (py_nth cells fp_index) (\<lambda>v. Inr (val_of_cell v))
      else if errTag = ''false negatives'' then
        bind_err (py_nth cells fn_index) (\<lambda>v. Inr (val_of_cell v))
      else Inl Exception)"

text \<open>The loop over the thresholds of one window: it stops at the first exception.\<close>

fun export_values :: "string \<Rightarrow> nat \<Rightarrow> nat \<Rightarrow> nat \<Rightarrow> cell list list \<Rightarrow> error + pyval list" where
  "export_values errTag tp_index fp_index fn_index [] = Inr []"
| "export_values errTag tp_index fp_index fn_index (cells # rest) =
     bind_err (export_value errTag tp_index fp_index fn_index cells) (\<lambda>v.
     bind_err (export_values errTag tp_index fp_index fn_index rest) (\<lambda>vs. Inr (v # vs)))"

text \<open>
  One data row: \<^verbatim>\<open>self.container.window_sizes[window]\<close>, then one value per
  threshold.
\<close>

definition export_row ::
  "string \<Rightarrow> nat \<Rightarrow> nat \<Rightarrow> nat \<Rightarrow> int list \<Rightarrow> nat \<Rightarrow> cell list list \<Rightarrow> error + pyval list" where
  "export_row errTag tp_index fp_index fn_index sizes w row =
     bind_err (py_nth sizes w) (\<lambda>window_size.
     bind_err (export_values errTag tp_index fp_index fn_index row) (\<lambda>vs.
       Inr (PInt window_size # vs)))"

text \<open>
  The loop over \<^verbatim>\<open>range(len(self.container.window))\<close>, from window index \<open>w\<close> on:
  each finished row is written; an exception leaves the rows written so far.
\<close>

fun write_rows ::
  "string \<Rightarrow> nat \<Rightarrow> nat \<Rightarrow> nat \<Rightarrow> int list \<Rightarrow> nat \<Rightarrow> cell list list list \<Rightarrow> csvfile
     \<Rightarrow> error option \<times> csvfile" where
  "write_rows errTag tp_index fp_index fn_index sizes w [] file = (None, file)"
| "write_rows errTag tp_index fp_index fn_index sizes w (row # rest) file =
     (case export_row errTag tp_index fp_index fn_index sizes w row of
        Inl e \<Rightarrow> (Some e, file)
      | Inr r \<Rightarrow> write_rows errTag tp_index fp_index fn_index sizes (Suc w) rest (file @ [r]))"

text \<open>
  \<^verbatim>\<open>exportToCsv\<close>: the three \<^verbatim>\<open>index\<close> lookups come first, whatever the tag, and
  before the file is opened.
\<close>

definition exportToCsv ::
  "heap \<Rightarrow> ResultsContainer \<Rightarrow> string \<Rightarrow> string \<Rightarrow> filesystem \<Rightarrow> error option \<times> filesystem" where
  "exportToCsv h c errTag export_path fs =
     (case py_index (error_values c) ''true positives'' of
        Inl e \<Rightarrow> (Some e, fs)
      | Inr tp_index \<Rightarrow>
     (case py_index (error_values c) ''false positives'' of
        Inl e \<Rightarrow> (Some e, fs)
      | Inr fp_index \<Rightarrow>
     (case py_index (error_values c) ''false negatives'' of
        Inl e \<Rightarrow> (Some e, fs)
      | Inr fn_index \<Rightarrow>
        (let header = csv_header (h (slope_thresholds c));
             written = write_rows errTag tp_index fp_index fn_index
                         (window_sizes c) 0 (window c) [header]
         in (fst written, fs(export_path := Some (snd written)))))))"

subsection \<open>Exporter.stdout\<close>

text \<open>
  The argument of \<^verbatim>\<open>setField\<close>: one of the values above, or a \<^verbatim>\<open>float\<close>. The
  function tells a float by \<^verbatim>\<open>isinstance\<close> and nothing it does then depends on
  the float's numeric value, which the model leaves out.
\<close>

datatype fieldarg = AFloat | AVal pyval

text \<open>
  \<^verbatim>\<open>
  if(isinstance(arg, float)):
      arg = round(arg, 2)
      arg = arg[:6]
  return str(arg).ljust(length)
  \<close>
  \<^verbatim>\<open>round(arg, 2)\<close> is a float again, and subscripting a float with
  \<^verbatim>\<open>[:6]\<close> raises \<^verbatim>\<open>TypeError\<close>: the float branch never reaches the
  \<^verbatim>\<open>return\<close>.
\<close>

definition setField :: "fieldarg \<Rightarrow> nat \<Rightarrow> error + string" where
  "setField arg len =
     (case arg of
        AFloat \<Rightarrow> Inl TypeError
      | AVal v \<Rightarrow> Inr (ljust (py_str v) len))"

text \<open>\<^verbatim>\<open>s.split()\<close> on blanks: \<open>cur\<close> is the word being read.\<close>

fun py_split :: "string \<Rightarrow> string \<Rightarrow> string list" where
  "py_split [] cur = (if cur = [] then [] else [cur])"
| "py_split (ch # rest) cur =
     (if ch = CHR '' '' then (if cur = [] then py_split rest [] else cur # py_split rest [])
      else py_split rest (cur @ [ch]))"

text \<open>\<^verbatim>\<open>''.join(xs)\<close>: every element has to be a \<^verbatim>\<open>str\<close>.\<close>

fun py_join :: "pyval list \<Rightarrow> error + string" where
  "py_join [] = Inr []"
| "py_join (PStr s # vs) = bind_err (py_join vs) (\<lambda>t. Inr (s @ t))"
| "py_join (v # vs) = Inl TypeError"

text \<open>
  \<^verbatim>\<open>
  thresholds = self.container.slope_thresholds
  for x in range(len(thresholds)):
      thresholds[x] = setField(thresholds[x])
  \<close>
  \<^verbatim>\<open>thresholds\<close> is the container's own list object \<open>r\<close>: each assignment updates
  the store. The indices run over \<^verbatim>\<open>range(len(thresholds))\<close>.
\<close>

fun pad_thresholds :: "heap \<Rightarrow> ref \<Rightarrow> nat list \<Rightarrow> error option \<times> heap" where
  "pad_thresholds h r [] = (None, h)"
| "pad_thresholds h r (x # xs) =
     (case setField (AVal (h r ! x)) 7 of
        Inl e \<Rightarrow> (Some e, h)
      | Inr s \<Rightarrow> pad_thresholds (h(r := (h r)[x := PStr s])) r xs)"

text \<open>
  \<^verbatim>\<open>
  thresholds.reverse()
  thresholds.append('       ')
  thresholds.append('   ')
  thresholds.reverse()
  \<close>
\<close>

definition add_spacers :: "heap \<Rightarrow> ref \<Rightarrow> heap" where
  "add_spacers h r =
     (let h1 = h(r := rev (h r));
          h2 = h1(r := h1 r @ [PStr ''       '']);
          h3 = h2(r := h2 r @ [PStr ''   ''])
      in h3(r := rev (h3 r)))"

text \<open>The fields of one window's row after the two labels: one per threshold.\<close>

definition summary_field :: "nat \<Rightarrow> nat \<Rightarrow> nat \<Rightarrow> cell list \<Rightarrow> error + string" where
  "summary_field tp_index fp_index fn_index cells =
     bind_err (py_nth cells tp_index) (\<lambda>tp.
     bind_err (py_nth cells fp_index) (\<lambda>fp.
     bind_err (py_nth cells fn_index) (\<lambda>fn.
     bind_err (summarize tp fp fn) (\<lambda>summary.
       setField (AVal (val_of_cell summary)) 7))))"

fun summary_fields :: "nat \<Rightarrow> nat \<Rightarrow> nat \<Rightarrow> cell list list \<Rightarrow> error + string list" where
  "summary_fields tp_index fp_index fn_index [] = Inr []"
| "summary_fields tp_index fp_index fn_index (cells # rest) =
     bind_err (summary_field tp_index fp_index fn_index cells) (\<lambda>s.
     bind_err (summary_fields tp_index fp_index fn_index rest) (\<lambda>ss. Inr (s # ss)))"

text \<open>
  The loop over the windows, from index \<open>w\<close> on. \<open>ylabel\<close> is the reversed list of
  label letters, \<^verbatim>\<open>pop()\<close> takes its last element; \<open>out\<close> are the lines printed so
  far. The result carries the letters left over.
\<close>

fun print_rows ::
  "nat \<Rightarrow> nat \<Rightarrow> nat \<Rightarrow> int list \<Rightarrow> nat \<Rightarrow> cell list list list \<Rightarrow> string list \<Rightarrow> string list
     \<Rightarrow> error option \<times> string list \<times> string list" where
  "print_rows tp_index fp_index fn_index sizes w [] ylabel out = (None, ylabel, out)"
| "print_rows tp_index fp_index fn_index sizes w (row # rest) ylabel out =
     (let label = (if length ylabel > 0 then ljust (last ylabel) 3 else ''   '');
          ylabel' = (if length ylabel > 0 then butlast ylabel else ylabel)
      in case py_nth sizes w of
           Inl e \<Rightarrow> (Some e, ylabel', out)
         | Inr window_size \<Rightarrow>
          (case setField (AVal (PStr (str_int window_size))) 7 of
             Inl e \<Rightarrow> (Some e, ylabel', out)
           | Inr size_field \<Rightarrow>
            (case summary_fields tp_index fp_index fn_index row of
               Inl e \<Rightarrow> (Some e, ylabel', out)
             | Inr summaries \<Rightarrow>
                 print_rows tp_index fp_index fn_index sizes (Suc w) rest ylabel'
                   (out @ [concat (label # size_field # summaries)]))))"

text \<open>
  \<^verbatim>\<open>stdout\<close> returns the exception raised, if any, the store and the container as
  the call leaves them, and the lines printed. The container record itself is never
  assigned to; the list object behind \<^verbatim>\<open>slope_thresholds\<close> is.
\<close>

definition stdout ::
  "heap \<Rightarrow> ResultsContainer \<Rightarrow> error option \<times> heap \<times> ResultsContainer \<times> string list" where
  "stdout h c =
     (case py_index (error_values c) ''true positives'' of
        Inl e \<Rightarrow> (Some e, h, c, [])
      | Inr tp_index \<Rightarrow>
     (case py_index (error_values c) ''false positives'' of
        Inl e \<Rightarrow> (Some e, h, c, [])
      | Inr fp_index \<Rightarrow>
     (case py_index (error_values c) ''false negatives'' of
        Inl e \<Rightarrow> (Some e, h, c, [])
      | Inr fn_index \<Rightarrow>
        (let out1 = [''Summarized error values:'' @ [CHR 0x0A], rjust ''t h r e s h o l d'' 36];
             thresholds = slope_thresholds c
         in case pad_thresholds h thresholds [0..<length (h thresholds)] of
              (Some e, h1) \<Rightarrow> (Some e, h1, c, out1)
            | (None, h1) \<Rightarrow>
             (let h2 = add_spacers h1 thresholds
              in case py_join (h2 thresholds) of
                   Inl e \<Rightarrow> (Some e, h2, c, out1)
                 | Inr line \<Rightarrow>
                  (case print_rows tp_index fp_index fn_index (window_sizes c) 0 (window c)
                          (rev (py_split ''w i n d o w'' [])) (out1 @ [line]) of
                     (Some e, ylabel, out) \<Rightarrow> (Some e, h2, c, out)
                   | (None, ylabel, out) \<Rightarrow> (None, h2, c, out @ rev ylabel)))))))"

subsection \<open>Exporter.__init__\<close>

text \<open>The loop over the error values: one export each, stopping at the first exception.\<close>

fun export_all ::
  "heap \<Rightarrow> ResultsContainer \<Rightarrow> string \<Rightarrow> string list \<Rightarrow> filesystem \<Rightarrow> error option \<times> filesystem" where
  "export_all h c export_directory [] fs = (None, fs)"
| "export_all h c export_directory (error_flag # rest) fs =
     (let export_path = replace_space (export_directory @ error_flag @ ''.csv'')
      in case exportToCsv h c error_flag export_path fs of
           (Some e, fs') \<Rightarrow> (Some e, fs')
         | (None, fs') \<Rightarrow> export_all h c export_directory rest fs')"

text \<open>
  \<^verbatim>\<open>self.export_directory[-1]\<close> raises \<^verbatim>\<open>IndexError\<close> on the empty string. The
  result: the exception raised, if any, the store, the directory, the container and the
  lines printed.
\<close>

definition Exporter_init ::
  "heap \<Rightarrow> filesystem \<Rightarrow> ResultsContainer \<Rightarrow> flags \<Rightarrow> string
     \<Rightarrow> error option \<times> heap \<times> filesystem \<times> ResultsContainer \<times> string list" where
  "Exporter_init h fs container flags dir =
     (if dir = [] then (Some IndexError, h, fs, container, [])
      else
        (let export_directory = (if last dir \<noteq> CHR ''/'' then dir @ ''/'' else dir)
         in case export_all h container export_directory (parse_error_values flags) fs of
              (Some e, fs') \<Rightarrow> (Some e, h, fs', container, [])
            | (None, fs') \<Rightarrow>
               (case stdout h container of
                  (err, h', c', out) \<Rightarrow> (err, h', fs', c', out))))"

subsection \<open>PeakAnalyst.find_peaks\<close>

text \<open>
  What \<^verbatim>\<open>find_peaks\<close> does to the world outside: it writes and removes the reclass
  rules file and runs GRASS commands, each recorded with its keyword arguments as text.
  The commands are taken to return.
\<close>

datatype action =
    WriteFile string string
  | RemoveFile string
  | RunCommand string "(string \<times> string) list"

text \<open>
  The analyst's fields that the sweep uses. Its slope-threshold list is the list object
  it later hands to the results container.
\<close>

record PeakAnalyst =
  analyst_window_sizes :: "int list"
  analyst_slope_thresholds :: ref
  dem :: string
  found_peaks :: "(int \<times> pyval \<times> string) list"

text \<open>
  \<^verbatim>\<open>cleanup\<close> reads \<^verbatim>\<open>flags['l']\<close> (a \<^verbatim>\<open>KeyError\<close> for a dictionary
  without that key) and removes the two rasters,
  \<^verbatim>\<open>peak_raster\<close> first, unless the flag is set.
\<close>

definition cleanup :: "flags \<Rightarrow> string \<Rightarrow> string \<Rightarrow> error + action list" where
  "cleanup flags feature_map peak_raster =
     (case map_of flags ''l'' of
        None \<Rightarrow> Inl KeyError
      | Some leave \<Rightarrow>
          Inr (if \<not> leave
                then map (\<lambda>raster. RunCommand ''g.remove'' [(''rast'', raster)])
                       [peak_raster, feature_map]
                else []))"

text \<open>
  The body of the inner loop for one window size and one slope threshold: the record
  appended to \<^verbatim>\<open>found_peaks\<close> and the actions performed, or the exception when
  \<^verbatim>\<open>cleanup\<close> raises (the record has been appended by then, and the run aborts).
\<close>

definition sweep_step ::
  "flags \<Rightarrow> string \<Rightarrow> int \<Rightarrow> pyval \<Rightarrow> error + (int \<times> pyval \<times> string) \<times> action list" where
  "sweep_step flags dem_map window_size slope_threshold =
     (let feature_map = str_int window_size @ ''_'' @ py_str slope_threshold;
          peak_raster = feature_map @ ''_peaks'';
          peak_vectors = ''p_'' @ peak_raster;
          commands =
            [RunCommand ''r.param.scale''
               [(''input'', dem_map), (''output'', feature_map),
                (''s_tol'', py_str slope_threshold), (''size'', str_int window_size),
                (''param'', ''feature'')],
             RunCommand ''r.reclass''
               [(''input'', feature_map), (''output'', peak_raster),
                (''rules'', ''.tmp_reclass.txt'')],
             RunCommand ''r.to.vect''
               [(''input'', peak_raster), (''output'', peak_vectors), (''feature'', ''area'')]]
      in case cleanup flags feature_map peak_raster of
           Inl e \<Rightarrow> Inl e
         | Inr removals \<Rightarrow>
             Inr ((window_size, slope_threshold, peak_vectors), commands @ removals))"

text \<open>
  The inner loop \<^verbatim>\<open>for slope_threshold in self.slope_thresholds\<close> and the outer loop
  \<^verbatim>\<open>for window in self.window_sizes\<close>, threading the list of found peaks and the
  actions performed so far.
\<close>

fun sweep_thresholds ::
  "flags \<Rightarrow> string \<Rightarrow> int \<Rightarrow> pyval list \<Rightarrow> (int \<times> pyval \<times> string) list \<times> action list
     \<Rightarrow> error + (int \<times> pyval \<times> string) list \<times> action list" where
  "sweep_thresholds flags dem_map window_size [] st = Inr st"
| "sweep_thresholds flags dem_map window_size (slope_threshold # rest) (found, acts0) =
     (case sweep_step flags dem_map window_size slope_threshold of
        Inl e \<Rightarrow> Inl e
      | Inr (peak, acts) \<Rightarrow>
          sweep_thresholds flags dem_map window_size rest (found @ [peak], acts0 @ acts))"

fun sweep_windows ::
  "flags \<Rightarrow> string \<Rightarrow> int list \<Rightarrow> pyval list \<Rightarrow> (int \<times> pyval \<times> string) list \<times> action list
     \<Rightarrow> error + (int \<times> pyval \<times> string) list \<times> action list" where
  "sweep_windows flags dem_map [] thresholds st = Inr st"
| "sweep_windows flags dem_map (window_size # rest) thresholds st =
     (case sweep_thresholds flags dem_map window_size thresholds st of
        Inl e \<Rightarrow> Inl e
      | Inr st' \<Rightarrow> sweep_windows flags dem_map rest thresholds st')"

text \<open>
  \<^verbatim>\<open>find_peaks\<close>: write the rules file, reset \<^verbatim>\<open>found_peaks\<close>, sweep, remove the
  rules file. An exception aborts the run.
\<close>

definition find_peaks :: "heap \<Rightarrow> flags \<Rightarrow> PeakAnalyst \<Rightarrow> error + PeakAnalyst \<times> action list" where
  "find_peaks h flags a =
     (let reclass_rules = ''.tmp_reclass.txt'';
          rules = ''0 thru 5 = NULL'' @ [CHR 0x0A] @ ''* = *'' @ [CHR 0x0A] @ ''end'' @ [CHR 0x0A]
      in case sweep_windows flags (dem a) (analyst_window_sizes a)
                (h (analyst_slope_thresholds a)) ([], [WriteFile reclass_rules rules]) of
           Inl e \<Rightarrow> Inl e
         | Inr (found, acts) \<Rightarrow>
             Inr (a\<lparr>found_peaks := found\<rparr>, acts @ [RemoveFile reclass_rules]))"

subsection \<open>Example data\<close>

text \<open>
  The spec's example: window sizes \<open>[3, 5]\<close>, slope thresholds \<open>[1, 2]\<close> (list object
  \<open>0\<close> of the store), the three counts of every cell.
\<close>

definition example_heap :: heap where
  "example_heap = (\<lambda>r. if r = 0 then [PInt 1, PInt 2] else [])"

definition example_container :: ResultsContainer where
  "example_container =
     \<lparr> window_sizes = [3, 5], slope_thresholds = 0,
       error_values = [''true positives'', ''false positives'', ''false negatives''],
       window = [[[Count 10, Count 1, Count 0], [Count 8, Count 2, Count 1]],
                 [[Count 6, Count 0, Count 2], [Count 4, Count 1, Count 3]]] \<rparr>"

definition example_flags :: flags where
  "example_flags =
     [(''t'', True), (''f'', True), (''n'', True), (''s'', False), (''l'', False)]"

text \<open>
  A run that asks for the true positives only, with its table after the evaluation, and
  a run that asks for the three counts and for the intermediate maps to be kept.
\<close>

definition true_positives_only :: flags where
  "true_positives_only =
     [(''t'', True), (''f'', False), (''n'', False), (''s'', False), (''l'', False)]"

definition true_positives_table :: ResultsContainer where
  "true_positives_table =
     \<lparr> window_sizes = [3, 5], slope_thresholds = 0,
       error_values = parse_error_values true_positives_only,
       window = [[[Count 10], [Count 8]], [[Count 6], [Count 4]]] \<rparr>"

definition leave_maps_flags :: flags where
  "leave_maps_flags =
     [(''t'', True), (''f'', True), (''n'', True), (''s'', False), (''l'', True)]"

definition example_analyst :: PeakAnalyst where
  "example_analyst =
     \<lparr> analyst_window_sizes = [3, 5], analyst_slope_thresholds = 0,
       dem = ''elevation'', found_peaks = [] \<rparr>"

section \<open>Properties\<close>

subsection \<open>Strings of the example data\<close>

lemma str_int_examples:
  "str_int 1 = ''1''" "str_int 2 = ''2''" "str_int 3 = ''3''" "str_int 5 = ''5''"
  by code_simp+

lemma padded_examples:
  "ljust (py_str (PInt 1)) 7 = ''1      ''" "ljust (py_str (PInt 2)) 7 = ''2      ''"
  by code_simp+

subsection \<open>summarize\<close>

lemma summarize_counts:
  "summarize (Count tp) (Count fp) (Count fn) =
     Inr (Count (if tp + fn = 0 then tp - fp else tp div (tp + fn) - fp div (tp + fn)))"
  by (simp add: summarize_def bind_err_def py_add_def py_is_zero_def py_div_def py_sub_def)

text \<open>
  On counts the index is an integer. As soon as one labelled peak is missed
  (\<open>fn > 0\<close>) the sensitivity part is \<open>0\<close>, whatever the number of true positives.
\<close>

lemma summarize_missed_peak:
  "0 \<le> tp \<Longrightarrow> 0 < fn \<Longrightarrow>
   summarize (Count tp) (Count fp) (Count fn) = Inr (Count (- (fp div (tp + fn))))"
  by (simp add: summarize_counts)

text \<open>
  C1. The claim: for counts with \<open>tp + fn > 0\<close>, summarize returns exactly
  \<open>tp/(tp+fn) - fp/(tp+fn)\<close>, and the example grid is \<open>[[0.9, 0.667], [0.75, 0.429]]\<close>.
  The code divides two integers with Python 2's \<^verbatim>\<open>/\<close>, which floors. On the
  example grid's four cells it returns \<open>1\<close>, \<open>0\<close>, \<open>0\<close> and \<open>0\<close>, none of which is
  the exact quotient difference \<open>9/10\<close>, \<open>2/3\<close>, \<open>3/4\<close>, \<open>3/7\<close>.
\<close>

theorem summarize_floors_example_grid:
  "summarize (Count 10) (Count 1) (Count 0) = Inr (Count 1)
   \<and> summarize (Count 8) (Count 2) (Count 1) = Inr (Count 0)
   \<and> summarize (Count 6) (Count 0) (Count 2) = Inr (Count 0)
   \<and> summarize (Count 4) (Count 1) (Count 3) = Inr (Count 0)
   \<and> (10::rat) / (10 + 0) - 1 / (10 + 0) = 9 / 10
   \<and> (8::rat) / (8 + 1) - 2 / (8 + 1) = 2 / 3
   \<and> (6::rat) / (6 + 2) - 0 / (6 + 2) = 3 / 4
   \<and> (4::rat) / (4 + 3) - 1 / (4 + 3) = 3 / 7"
  by (simp add: summarize_counts)

text \<open>
  C2. For every count \<open>fp\<close> (non-negative or not), \<open>summarize(0, fp, 0) = -fp\<close>:
  the branch for \<open>tp + fn == 0\<close> divides by \<open>1\<close>, so the call returns a value and no
  \<^verbatim>\<open>ZeroDivisionError\<close> is raised.
\<close>

theorem summarize_zero_denominator:
  "summarize (Count 0) (Count fp) (Count 0) = Inr (Count (- fp))"
  by (simp add: summarize_counts)

subsection \<open>ResultsContainer.add_error\<close>

lemma py_index_absent: "x \<notin> set xs \<Longrightarrow> py_index xs x = Inl ValueError"
  by (induction xs) auto

lemma py_index_Inl: "py_index xs x = Inl e \<Longrightarrow> x \<notin> set xs \<and> e = ValueError"
  by (induction xs) (auto split: if_splits sum.splits)

lemma py_index_present:
  "x \<in> set xs \<Longrightarrow> \<exists>i. py_index xs x = Inr i \<and> i < length xs \<and> xs ! i = x"
  by (induction xs) auto

lemma py_index_distinct:
  "distinct xs \<Longrightarrow> i < length xs \<Longrightarrow> py_index xs (xs ! i) = Inr i"
proof (induction xs arbitrary: i)
  case Nil
  then show ?case by simp
next
  case (Cons y ys)
  show ?case
  proof (cases i)
    case 0
    then show ?thesis by simp
  next
    case (Suc m)
    with Cons.prems have m: "m < length ys" and d: "distinct ys" and ny: "y \<notin> set ys"
      by auto
    from m ny have "ys ! m \<noteq> y" by (metis nth_mem)
    with Cons.IH [OF d m] Suc show ?thesis by simp
  qed
qed

lemma table_shape_init: "table_shape h (ResultsContainer_init h ws r evs)"
  by (simp add: table_shape_def ResultsContainer_init_def list_all_iff)

lemma table_shape_nth:
  "table_shape h c \<Longrightarrow> i < length (window_sizes c) \<Longrightarrow> j < length (h (slope_thresholds c)) \<Longrightarrow>
   k < length (error_values c) \<Longrightarrow>
   i < length (window c) \<and> j < length (window c ! i) \<and> k < length (window c ! i ! j)"
  by (auto simp: table_shape_def list_all_length)

lemma set_cell_shape:
  "set_cell w i j k v = Inr w' \<Longrightarrow>
   length w' = length w
   \<and> (\<forall>a<length w. length (w' ! a) = length (w ! a)
        \<and> (\<forall>b<length (w ! a). length (w' ! a ! b) = length (w ! a ! b)))"
  by (auto simp: set_cell_def nth_list_update split: if_splits)

text \<open>
  \<^verbatim>\<open>add_error\<close> keeps the shape and the axes, whether it raises or not, and a call
  that returns changes no cell but the one it names.
\<close>

lemma add_error_keeps_shape:
  assumes "table_shape h c" and "add_error h c ws st et v = (e, h', c')"
  shows "h' = h \<and> table_shape h c'
         \<and> window_sizes c' = window_sizes c \<and> slope_thresholds c' = slope_thresholds c
         \<and> error_values c' = error_values c"
proof (cases e)
  case None
  with assms(2) obtain i j k w' where
    w': "set_cell (window c) i j k (Count v) = Inr w'" and c': "c' = c\<lparr>window := w'\<rparr>"
    and h': "h' = h"
    by (auto simp: add_error_def split: sum.splits)
  from set_cell_shape [OF w'] assms(1) have "table_shape h (c\<lparr>window := w'\<rparr>)"
    by (simp add: table_shape_def list_all_length)
  with c' h' show ?thesis by simp
next
  case (Some err)
  with assms show ?thesis
    by (auto simp: add_error_def split: sum.splits)
qed

lemma add_error_other_cells:
  assumes "add_error h c ws st et v = (None, h', c')"
    and "py_index (window_sizes c) ws = Inr i"
    and "py_index (h (slope_thresholds c)) st = Inr j"
    and "py_index (error_values c) et = Inr k"
    and "(a, b, d) \<noteq> (i, j, k)"
  shows "window c' ! a ! b ! d = window c ! a ! b ! d"
  using assms
  by (auto simp: add_error_def set_cell_def nth_list_update split: sum.splits if_splits)

text \<open>
  C3. In a table of the shape \<^verbatim>\<open>__init__\<close> gives it, over axes of distinct values:
  \<^verbatim>\<open>add_error\<close> with the values at positions \<open>i\<close>, \<open>j\<close>, \<open>k\<close> of the three axes and
  a count \<open>v\<close> raises nothing, and the cell at \<open>(i, j, k)\<close> then holds \<open>v\<close>.
\<close>

theorem add_error_roundtrip:
  assumes "table_shape h c"
    and "distinct (window_sizes c)" and "distinct (h (slope_thresholds c))"
    and "distinct (error_values c)"
    and "i < length (window_sizes c)" and "j < length (h (slope_thresholds c))"
    and "k < length (error_values c)"
  shows "\<exists>c'. add_error h c (window_sizes c ! i) (h (slope_thresholds c) ! j) (error_values c ! k) v
            = (None, h, c')
          \<and> window c' ! i ! j ! k = Count v"
proof -
  from table_shape_nth [OF assms(1) assms(5) assms(6) assms(7)]
  have b: "i < length (window c)" "j < length (window c ! i)" "k < length (window c ! i ! j)"
    by simp_all
  then show ?thesis
    by (simp add: add_error_def py_index_distinct assms set_cell_def)
qed

theorem add_error_roundtrip_witness:
  "table_shape example_heap example_container
   \<and> distinct (window_sizes example_container)
   \<and> distinct (example_heap (slope_thresholds example_container))
   \<and> distinct (error_values example_container)
   \<and> (\<exists>c'. add_error example_heap example_container 5 (PInt 1) ''false negatives'' 7
              = (None, example_heap, c')
            \<and> window c' ! 1 ! 0 ! 2 = Count 7)"
  using add_error_roundtrip [of example_heap example_container 1 0 2 7]
  by (simp add: table_shape_def example_heap_def example_container_def)

text \<open>
  C4. \<^verbatim>\<open>add_error\<close> with a window size, a slope threshold or an error kind that is
  not on its axis raises \<^verbatim>\<open>ValueError\<close> and leaves the store (the threshold axis)
  and the container (the other two axes and every cell) as they were.
\<close>

theorem add_error_absent:
  assumes "ws \<notin> set (window_sizes c) \<or> st \<notin> set (h (slope_thresholds c))
           \<or> et \<notin> set (error_values c)"
  shows "add_error h c ws st et v = (Some ValueError, h, c)"
  using assms
  by (auto simp: add_error_def py_index_absent split: sum.splits dest: py_index_Inl)

theorem add_error_absent_witness:
  "4 \<notin> set (window_sizes example_container)
   \<and> add_error example_heap example_container 4 (PInt 1) ''true positives'' 7
       = (Some ValueError, example_heap, example_container)"
  using add_error_absent [of 4 example_container "PInt 1" example_heap "''true positives''" 7]
  by (simp add: example_container_def)

subsection \<open>Exporter.exportToCsv\<close>

lemma bind_err_Inr_iff:
  "bind_err m f = Inr y \<longleftrightarrow> (\<exists>x. m = Inr x \<and> f x = Inr y)"
  by (cases m) (simp_all add: bind_err_def)

lemma py_nth_Inr_iff: "py_nth xs i = Inr x \<longleftrightarrow> i < length xs \<and> xs ! i = x"
  by (simp add: py_nth_def)

lemma export_values_Inr:
  "export_values errTag a b d row = Inr vs \<Longrightarrow>
   length vs = length row \<and> (\<forall>j<length row. export_value errTag a b d (row ! j) = Inr (vs ! j))"
proof (induction row arbitrary: vs)
  case Nil
  then show ?case by simp
next
  case (Cons cells rest)
  from Cons.prems obtain v vs' where v: "export_value errTag a b d cells = Inr v"
    and r: "export_values errTag a b d rest = Inr vs'" and vs: "vs = v # vs'"
    by (auto simp: bind_err_Inr_iff)
  from Cons.IH [OF r] v vs show ?case
    by (auto simp: nth_Cons split: nat.splits)
qed

lemma write_rows_None:
  "write_rows errTag a b d sizes w rows acc = (None, acc') \<Longrightarrow>
   \<exists>rs. acc' = acc @ rs \<and> length rs = length rows
      \<and> (\<forall>i<length rows. export_row errTag a b d sizes (w + i) (rows ! i) = Inr (rs ! i))"
proof (induction rows arbitrary: w acc)
  case Nil
  then show ?case by simp
next
  case (Cons row rest)
  from Cons.prems obtain r where r: "export_row errTag a b d sizes w row = Inr r"
    and rest: "write_rows errTag a b d sizes (Suc w) rest (acc @ [r]) = (None, acc')"
    by (auto split: sum.splits)
  from Cons.IH [OF rest] obtain rs where rs: "acc' = (acc @ [r]) @ rs"
    "length rs = length rest"
    "\<forall>i<length rest. export_row errTag a b d sizes (Suc w + i) (rest ! i) = Inr (rs ! i)"
    by blast
  have "\<forall>i<length (row # rest).
          export_row errTag a b d sizes (w + i) ((row # rest) ! i) = Inr ((r # rs) ! i)"
    using r rs(3) by (auto simp: nth_Cons split: nat.splits)
  with rs(1,2) show ?case
    by (intro exI [of _ "r # rs"]) simp
qed

lemma export_row_Inr:
  "export_row errTag a b d sizes w row = Inr r \<Longrightarrow>
   w < length sizes \<and> length r = Suc (length row) \<and> r ! 0 = PInt (sizes ! w)
   \<and> (\<forall>j<length row. export_value errTag a b d (row ! j) = Inr (r ! Suc j))"
  by (auto simp: export_row_def bind_err_Inr_iff py_nth_Inr_iff dest!: export_values_Inr)

lemma csv_header_eq:
  "csv_header ts = PStr ''window_size'' # map (\<lambda>t. PStr (''threshold_'' @ py_str t)) ts"
  by (simp add: csv_header_def)

lemma table_shape_row:
  "table_shape h c \<Longrightarrow> i < length (window c) \<Longrightarrow>
   length (window c ! i) = length (h (slope_thresholds c))"
  by (simp add: table_shape_def list_all_length)

text \<open>
  C6. A CSV that \<^verbatim>\<open>exportToCsv\<close> has written to the end, for a table of the shape
  \<^verbatim>\<open>__init__\<close> gives it: the header is the label \<^verbatim>\<open>window_size\<close> followed by one
  column per slope threshold, in threshold order, so it has one column more than there
  are thresholds; there is one data row per window size, in window-size order; row \<open>i\<close>
  starts with window size \<open>i\<close> and goes on with the values of the cells
  \<open>(i, 0), (i, 1), ...\<close> in threshold order.
\<close>

theorem exportToCsv_layout:
  assumes shape: "table_shape h c"
    and ok: "exportToCsv h c errTag export_path fs = (None, fs')"
  shows "\<exists>header rows tp_index fp_index fn_index.
           fs' export_path = Some (header # rows)
         \<and> header = PStr ''window_size''
                      # map (\<lambda>t. PStr (''threshold_'' @ py_str t)) (h (slope_thresholds c))
         \<and> length header = length (h (slope_thresholds c)) + 1
         \<and> length rows = length (window_sizes c)
         \<and> py_index (error_values c) ''true positives'' = Inr tp_index
         \<and> py_index (error_values c) ''false positives'' = Inr fp_index
         \<and> py_index (error_values c) ''false negatives'' = Inr fn_index
         \<and> (\<forall>i<length (window_sizes c).
               length (rows ! i) = length (h (slope_thresholds c)) + 1
             \<and> rows ! i ! 0 = PInt (window_sizes c ! i)
             \<and> (\<forall>j<length (h (slope_thresholds c)).
                   export_value errTag tp_index fp_index fn_index (window c ! i ! j)
                     = Inr (rows ! i ! Suc j)))"
proof -
  from ok obtain tpi fpi fni where idx:
    "py_index (error_values c) ''true positives'' = Inr tpi"
    "py_index (error_values c) ''false positives'' = Inr fpi"
    "py_index (error_values c) ''false negatives'' = Inr fni"
    by (auto simp: exportToCsv_def split: sum.splits)
  let ?header = "csv_header (h (slope_thresholds c))"
  let ?written = "write_rows errTag tpi fpi fni (window_sizes c) 0 (window c) [?header]"
  from ok idx have w: "fst ?written = None" and f: "fs' = fs(export_path := Some (snd ?written))"
    by (simp_all add: exportToCsv_def Let_def)
  from w have "?written = (None, snd ?written)" by (metis prod.collapse)
  from write_rows_None [OF this] obtain rs where rs: "snd ?written = [?header] @ rs"
    "length rs = length (window c)"
    "\<forall>i<length (window c). export_row errTag tpi fpi fni (window_sizes c) (0 + i) (window c ! i) = Inr (rs ! i)"
    by blast
  from shape have len: "length (window c) = length (window_sizes c)"
    by (simp add: table_shape_def)
  have rows: "length (rs ! i) = length (h (slope_thresholds c)) + 1
      \<and> rs ! i ! 0 = PInt (window_sizes c ! i)
      \<and> (\<forall>j<length (h (slope_thresholds c)).
            export_value errTag tpi fpi fni (window c ! i ! j) = Inr (rs ! i ! Suc j))"
    if i: "i < length (window_sizes c)" for i
  proof -
    from i len rs(3) have "export_row errTag tpi fpi fni (window_sizes c) i (window c ! i) = Inr (rs ! i)"
      by simp
    from export_row_Inr [OF this] table_shape_row [OF shape, of i] i len show ?thesis
      by simp
  qed
  show ?thesis
    apply (rule exI [of _ ?header], rule exI [of _ rs], rule exI [of _ tpi], rule exI [of _ fpi], rule exI [of _ fni])
    using f rs(1,2) len idx rows by (simp add: csv_header_eq)
qed

theorem exportToCsv_layout_witness:
  "table_shape example_heap example_container
   \<and> exportToCsv example_heap example_container ''summarize'' ''out/summarize.csv'' (\<lambda>p. None)
       = (None, (\<lambda>p. None)(''out/summarize.csv'' :=
            Some [[PStr ''window_size'', PStr ''threshold_1'', PStr ''threshold_2''],
                  [PInt 3, PInt 1, PInt 0], [PInt 5, PInt 0, PInt 0]]))
   \<and> (\<exists>header rows tp_index fp_index fn_index.
         ((\<lambda>p. None)(''out/summarize.csv'' :=
            Some [[PStr ''window_size'', PStr ''threshold_1'', PStr ''threshold_2''],
                  [PInt 3, PInt 1, PInt 0], [PInt 5, PInt 0, PInt 0]])) ''out/summarize.csv'' = Some (header # rows)
       \<and> length header = 3 \<and> length rows = 2)"
proof -
  have s: "table_shape example_heap example_container"
    by (simp add: table_shape_def example_heap_def example_container_def)
  have e: "exportToCsv example_heap example_container ''summarize'' ''out/summarize.csv'' (\<lambda>p. None)
       = (None, (\<lambda>p. None)(''out/summarize.csv'' :=
            Some [[PStr ''window_size'', PStr ''threshold_1'', PStr ''threshold_2''],
                  [PInt 3, PInt 1, PInt 0], [PInt 5, PInt 0, PInt 0]]))"
    by (simp add: exportToCsv_def example_heap_def example_container_def csv_header_def
        export_row_def export_value_def py_nth_def bind_err_def summarize_counts val_of_cell_def
        py_str_def str_int_examples)
  from exportToCsv_layout [OF s e] s e show ?thesis
    by (simp add: example_heap_def example_container_def)
qed

lemma exportToCsv_needs_three_kinds:
  "''true positives'' \<notin> set (error_values c) \<or> ''false positives'' \<notin> set (error_values c)
     \<or> ''false negatives'' \<notin> set (error_values c) \<Longrightarrow>
   exportToCsv h c errTag export_path fs = (Some ValueError, fs)"
  by (auto simp: exportToCsv_def py_index_absent split: sum.splits dest: py_index_Inl)

text \<open>
  With the three labels on the error axis and a count in each of their cells, an export
  of any of the four kinds writes its file to the end.
\<close>

lemma counts_atD:
  "counts_at i j k cells \<Longrightarrow>
   \<exists>a b d. py_nth cells i = Inr (Count a) \<and> py_nth cells j = Inr (Count b)
          \<and> py_nth cells k = Inr (Count d)"
  by (simp add: counts_at_def py_nth_def) (metis cell.exhaust)

lemma export_value_counts:
  assumes "counts_at i j k cells"
    and "errTag \<in> {''true positives'', ''false positives'', ''false negatives'', ''summarize''}"
  shows "\<exists>v. export_value errTag i j k cells = Inr v"
proof -
  from counts_atD [OF assms(1)] obtain a b d where
    "py_nth cells i = Inr (Count a)" "py_nth cells j = Inr (Count b)"
    "py_nth cells k = Inr (Count d)" by blast
  with assms(2) show ?thesis
    by (auto simp: export_value_def bind_err_def summarize_counts)
qed

lemma export_values_counts:
  assumes "errTag \<in> {''true positives'', ''false positives'', ''false negatives'', ''summarize''}"
  shows "list_all (counts_at i j k) row \<Longrightarrow> \<exists>vs. export_values errTag i j k row = Inr vs"
proof (induction row)
  case Nil
  then show ?case by simp
next
  case (Cons cells rest)
  then obtain vs where vs: "export_values errTag i j k rest = Inr vs" by auto
  from Cons.prems have "counts_at i j k cells" by simp
  from export_value_counts [OF this assms] obtain v where "export_value errTag i j k cells = Inr v"
    by blast
  with vs show ?case by (simp add: bind_err_def)
qed

lemma write_rows_counts:
  assumes "errTag \<in> {''true positives'', ''false positives'', ''false negatives'', ''summarize''}"
  shows "list_all (list_all (counts_at i j k)) rows \<Longrightarrow> w + length rows \<le> length sizes \<Longrightarrow>
         \<exists>acc'. write_rows errTag i j k sizes w rows acc = (None, acc')"
proof (induction rows arbitrary: w acc)
  case Nil
  then show ?case by simp
next
  case (Cons row rest)
  from Cons.prems have row: "list_all (counts_at i j k) row" and w: "w < length sizes"
    by simp_all
  from export_values_counts [OF assms row] obtain vs where
    "export_values errTag i j k row = Inr vs" by blast
  with w have r: "export_row errTag i j k sizes w row = Inr (PInt (sizes ! w) # vs)"
    by (simp add: export_row_def py_nth_def bind_err_def)
  from Cons.prems have "list_all (list_all (counts_at i j k)) rest"
    and "Suc w + length rest \<le> length sizes" by simp_all
  from Cons.IH [OF this] r show ?case by simp
qed

lemma exportToCsv_succeeds:
  assumes "table_shape h c" and "counts_filled c"
    and "errTag \<in> {''true positives'', ''false positives'', ''false negatives'', ''summarize''}"
  shows "\<exists>rows. exportToCsv h c errTag export_path fs
           = (None, fs(export_path := Some rows))"
proof -
  from assms(2) obtain i j k where idx:
    "py_index (error_values c) ''true positives'' = Inr i"
    "py_index (error_values c) ''false positives'' = Inr j"
    "py_index (error_values c) ''false negatives'' = Inr k"
    and filled: "list_all (list_all (counts_at i j k)) (window c)"
    by (auto simp: counts_filled_def split: sum.splits)
  from assms(1) have "0 + length (window c) \<le> length (window_sizes c)"
    by (simp add: table_shape_def)
  from write_rows_counts [OF assms(3) filled this] obtain acc' where
    "write_rows errTag i j k (window_sizes c) 0 (window c) [csv_header (h (slope_thresholds c))]
       = (None, acc')" by blast
  with idx show ?thesis by (auto simp: exportToCsv_def)
qed

lemma export_all_succeeds:
  assumes "table_shape h c" and "counts_filled c"
  shows "set tags \<subseteq> {''true positives'', ''false positives'', ''false negatives'', ''summarize''} \<Longrightarrow>
         \<exists>fs'. export_all h c export_directory tags fs = (None, fs')
           \<and> (\<forall>p. fs p \<noteq> None \<longrightarrow> fs' p \<noteq> None)
           \<and> (\<forall>tag\<in>set tags. fs' (replace_space (export_directory @ tag @ ''.csv'')) \<noteq> None)"
proof (induction tags arbitrary: fs)
  case Nil
  then show ?case by simp
next
  case (Cons tag rest)
  let ?path = "replace_space (export_directory @ tag @ ''.csv'')"
  from Cons.prems have tag: "tag \<in> {''true positives'', ''false positives'', ''false negatives'', ''summarize''}"
    and rest: "set rest \<subseteq> {''true positives'', ''false positives'', ''false negatives'', ''summarize''}"
    by simp_all
  from exportToCsv_succeeds [OF assms tag] obtain rows where
    one: "exportToCsv h c tag ?path fs = (None, fs(?path := Some rows))" by blast
  from Cons.IH [OF rest, of "fs(?path := Some rows)"] obtain fs' where
    fs': "export_all h c export_directory rest (fs(?path := Some rows)) = (None, fs')"
      "\<forall>p. (fs(?path := Some rows)) p \<noteq> None \<longrightarrow> fs' p \<noteq> None"
      "\<forall>tag\<in>set rest. fs' (replace_space (export_directory @ tag @ ''.csv'')) \<noteq> None"
    by blast
  from fs'(2) have keep: "\<forall>p. fs p \<noteq> None \<longrightarrow> fs' p \<noteq> None" and new: "fs' ?path \<noteq> None"
    by (auto split: if_splits)
  from one fs'(1) have "export_all h c export_directory (tag # rest) fs = (None, fs')"
    by (simp add: Let_def)
  with keep new fs'(3) show ?case by auto
qed

subsection \<open>Exporter.stdout\<close>

text \<open>
  C7. The claim: a float is rendered by truncation to the display width, and
  \<^verbatim>\<open>setField\<close> returns a string for every float. The code slices the float itself,
  not its string: for a float argument and any width, \<^verbatim>\<open>setField\<close> raises
  \<^verbatim>\<open>TypeError\<close>.
\<close>

theorem setField_float_raises: "setField AFloat len = Inl TypeError"
  by (simp add: setField_def)

lemma setField_value: "setField (AVal v) len = Inr (ljust (py_str v) len)"
  by (simp add: setField_def)

lemma pad_thresholds_from:
  "k \<le> length (h r) \<Longrightarrow>
   pad_thresholds h r [k..<length (h r)]
     = (None, h(r := take k (h r) @ map (\<lambda>t. PStr (ljust (py_str t) 7)) (drop k (h r))))"
proof (induction "length (h r) - k" arbitrary: h k)
  case 0
  then have "k = length (h r)" by simp
  then show ?case by simp
next
  case (Suc n)
  then have k: "k < length (h r)" by simp
  let ?x = "PStr (ljust (py_str (h r ! k)) 7)"
  let ?h = "h(r := (h r)[k := ?x])"
  have len: "length (?h r) = length (h r)" by simp
  have n: "n = length (?h r) - Suc k" using Suc.hyps(2) by simp
  have le: "Suc k \<le> length (?h r)" using k by simp
  have upt: "[k..<length (h r)] = k # [Suc k..<length (?h r)]"
    using k by (simp add: upt_conv_Cons)
  have tk: "take (Suc k) (?h r) = take k (h r) @ [?x]"
    using k by (simp add: take_Suc_conv_app_nth)
  have dr: "drop k (h r) = (h r ! k) # drop (Suc k) (h r)"
    using k by (simp add: Cons_nth_drop_Suc)
  have "pad_thresholds h r [k..<length (h r)] = pad_thresholds ?h r [Suc k..<length (?h r)]"
    by (subst upt) (simp add: setField_value)
  also have "\<dots> = (None, ?h(r := take (Suc k) (?h r)
                        @ map (\<lambda>t. PStr (ljust (py_str t) 7)) (drop (Suc k) (?h r))))"
    using Suc.hyps(1) [of ?h "Suc k"] n le by blast
  also have "\<dots> = (None, h(r := take k (h r) @ map (\<lambda>t. PStr (ljust (py_str t) 7)) (drop k (h r))))"
    by (simp only: tk dr) simp
  finally show ?case .
qed

lemma pad_thresholds_all:
  "pad_thresholds h r [0..<length (h r)]
     = (None, h(r := map (\<lambda>t. PStr (ljust (py_str t) 7)) (h r)))"
  using pad_thresholds_from [of 0 h r] by simp

lemma add_spacers_eq:
  "add_spacers h r = h(r := [PStr ''   '', PStr ''       ''] @ h r)"
  by (simp add: add_spacers_def Let_def)

lemma py_join_strs: "\<exists>line. py_join (map PStr ss) = Inr line"
  by (induction ss) (auto simp: bind_err_def)

text \<open>
  C10. Once the three lookups on the error axis have succeeded, \<^verbatim>\<open>stdout\<close> has
  rewritten the list object behind the container's \<^verbatim>\<open>slope_thresholds\<close>, whether
  or not the row loop raises afterwards: every entry is replaced by its string padded to
  width 7 and two spacer strings stand in front, so the list is no longer the original
  axis. The container record comes back as it was (window sizes, error values, cells
  and the reference itself), and no other list object of the store changes.
\<close>

theorem stdout_rewrites_threshold_axis:
  assumes "''true positives'' \<in> set (error_values c)"
    and "''false positives'' \<in> set (error_values c)"
    and "''false negatives'' \<in> set (error_values c)"
  shows "\<exists>e h' out. stdout h c = (e, h', c, out)
     \<and> h' (slope_thresholds c)
         = [PStr ''   '', PStr ''       '']
           @ map (\<lambda>t. PStr (ljust (py_str t) 7)) (h (slope_thresholds c))
     \<and> h' (slope_thresholds c) \<noteq> h (slope_thresholds c)
     \<and> (\<forall>r. r \<noteq> slope_thresholds c \<longrightarrow> h' r = h r)"
proof -
  let ?r = "slope_thresholds c"
  let ?new = "[PStr ''   '', PStr ''       ''] @ map (\<lambda>t. PStr (ljust (py_str t) 7)) (h ?r)"
  let ?h2 = "h(?r := ?new)"
  from assms obtain tpi fpi fni where idx:
    "py_index (error_values c) ''true positives'' = Inr tpi"
    "py_index (error_values c) ''false positives'' = Inr fpi"
    "py_index (error_values c) ''false negatives'' = Inr fni"
    by (blast dest: py_index_present)
  have h2: "add_spacers (h(?r := map (\<lambda>t. PStr (ljust (py_str t) 7)) (h ?r))) ?r = ?h2"
    by (simp add: add_spacers_eq)
  have "?new = map PStr ([''   '', ''       ''] @ map (\<lambda>t. ljust (py_str t) 7) (h ?r))"
    by simp
  with py_join_strs obtain line where line: "py_join (?h2 ?r) = Inr line"
    by (metis fun_upd_same)
  have neq: "?new \<noteq> h ?r"
  proof
    assume "?new = h ?r"
    then have "length ?new = length (h ?r)" by simp
    then show False by simp
  qed
  obtain e ylabel out where rows:
    "print_rows tpi fpi fni (window_sizes c) 0 (window c) (rev (py_split ''w i n d o w'' []))
       ([''Summarized error values:'' @ [CHR 0x0A], rjust ''t h r e s h o l d'' 36] @ [line])
     = (e, ylabel, out)"
    by (metis prod_cases3)
  have "\<exists>e out. stdout h c = (e, ?h2, c, out)"
    using idx line rows
    by (cases e) (simp_all add: stdout_def Let_def pad_thresholds_all h2 del: py_split.simps)
  with neq show ?thesis by auto
qed

theorem stdout_rewrites_threshold_axis_witness:
  "''true positives'' \<in> set (error_values example_container)
   \<and> ''false positives'' \<in> set (error_values example_container)
   \<and> ''false negatives'' \<in> set (error_values example_container)
   \<and> (\<exists>e h' out. stdout example_heap example_container = (e, h', example_container, out)
        \<and> h' 0 = [PStr ''   '', PStr ''       '', PStr ''1      '', PStr ''2      '']
        \<and> h' 0 \<noteq> [PInt 1, PInt 2])"
  using stdout_rewrites_threshold_axis [of example_container example_heap]
  by (auto simp add: example_heap_def example_container_def padded_examples)

lemma summary_fields_counts:
  "list_all (counts_at i j k) row \<Longrightarrow> \<exists>ss. summary_fields i j k row = Inr ss"
proof (induction row)
  case Nil
  then show ?case by simp
next
  case (Cons cells rest)
  then obtain ss where ss: "summary_fields i j k rest = Inr ss" by auto
  from Cons.prems have "counts_at i j k cells" by simp
  from counts_atD [OF this] have "\<exists>s. summary_field i j k cells = Inr s"
    by (auto simp: summary_field_def bind_err_def summarize_counts setField_def)
  with ss show ?case by (auto simp: bind_err_def)
qed

lemma print_rows_counts:
  "list_all (list_all (counts_at i j k)) rows \<Longrightarrow> w + length rows \<le> length sizes \<Longrightarrow>
   \<exists>ylabel' out'. print_rows i j k sizes w rows ylabel out = (None, ylabel', out')"
proof (induction rows arbitrary: w ylabel out)
  case Nil
  then show ?case by simp
next
  case (Cons row rest)
  from Cons.prems have row: "list_all (counts_at i j k) row" and w: "w < length sizes"
    by simp_all
  from summary_fields_counts [OF row] obtain ss where ss: "summary_fields i j k row = Inr ss"
    by blast
  from Cons.prems have "list_all (list_all (counts_at i j k)) rest"
    and "Suc w + length rest \<le> length sizes" by simp_all
  from Cons.IH [OF this] ss w show ?case
    by (simp add: Let_def py_nth_def setField_def)
qed


lemma stdout_succeeds:
  assumes "table_shape h c" and "counts_filled c"
  shows "\<exists>h' out. stdout h c = (None, h', c, out)"
proof -
  let ?r = "slope_thresholds c"
  let ?new = "[PStr ''   '', PStr ''       ''] @ map (\<lambda>t. PStr (ljust (py_str t) 7)) (h ?r)"
  let ?h2 = "h(?r := ?new)"
  from assms(2) obtain i j k where idx:
    "py_index (error_values c) ''true positives'' = Inr i"
    "py_index (error_values c) ''false positives'' = Inr j"
    "py_index (error_values c) ''false negatives'' = Inr k"
    and filled: "list_all (list_all (counts_at i j k)) (window c)"
    by (auto simp: counts_filled_def split: sum.splits)
  have h2: "add_spacers (h(?r := map (\<lambda>t. PStr (ljust (py_str t) 7)) (h ?r))) ?r = ?h2"
    by (simp add: add_spacers_eq)
  have "?new = map PStr ([''   '', ''       ''] @ map (\<lambda>t. ljust (py_str t) 7) (h ?r))"
    by simp
  with py_join_strs obtain line where line: "py_join (?h2 ?r) = Inr line"
    by (metis fun_upd_same)
  from assms(1) have "0 + length (window c) \<le> length (window_sizes c)"
    by (simp add: table_shape_def)
  from print_rows_counts [OF filled this] obtain ylabel out where
    "print_rows i j k (window_sizes c) 0 (window c) (rev (py_split ''w i n d o w'' []))
       ([''Summarized error values:'' @ [CHR 0x0A], rjust ''t h r e s h o l d'' 36] @ [line])
     = (None, ylabel, out)"
    by blast
  with idx line show ?thesis
    by (simp add: stdout_def Let_def pad_thresholds_all h2 del: py_split.simps)
qed

subsection \<open>Exporter.__init__\<close>

lemma parse_true_positives_only: "parse_error_values true_positives_only = [''true positives'']"
  by (simp add: parse_error_values_def true_positives_only_def replace_flag_def)

text \<open>
  C5. The claim: for any subset of the four kinds chosen by the flags, the Exporter
  writes one CSV per chosen kind. \<^verbatim>\<open>exportToCsv\<close> looks up all three count labels
  on the error axis before it opens the file, whatever the tag. A run that asks for the
  true positives only has the one label \<^verbatim>\<open>'true positives'\<close> on the axis: the export
  of that kind raises \<^verbatim>\<open>ValueError\<close> at the lookup of \<^verbatim>\<open>'false positives'\<close>, no
  file is written, and the console table is not reached.
\<close>

theorem Exporter_true_positives_only:
  "parse_error_values true_positives_only = [''true positives'']
   \<and> Exporter_init example_heap (\<lambda>p. None) true_positives_table true_positives_only ''out''
       = (Some ValueError, example_heap, (\<lambda>p. None), true_positives_table, [])"
  by (simp add: parse_true_positives_only Exporter_init_def exportToCsv_def
      true_positives_table_def)

text \<open>
  The runs in which the Exporter does write one CSV per selected kind: the three counts
  have all been selected and evaluated, and only labels of the four kinds are selected.
\<close>

lemma Exporter_init_succeeds:
  assumes "table_shape h c" and "counts_filled c" and "dir \<noteq> []"
    and "set (parse_error_values flags)
           \<subseteq> {''true positives'', ''false positives'', ''false negatives'', ''summarize''}"
  shows "\<exists>h' fs' out. Exporter_init h fs c flags dir = (None, h', fs', c, out)
     \<and> (\<forall>kind\<in>set (parse_error_values flags).
           fs' (replace_space ((if last dir \<noteq> CHR ''/'' then dir @ ''/'' else dir)
                                @ kind @ ''.csv'')) \<noteq> None)"
proof -
  let ?d = "if last dir \<noteq> CHR ''/'' then dir @ ''/'' else dir"
  from export_all_succeeds [OF assms(1,2,4), of ?d fs] obtain fs' where
    fs': "export_all h c ?d (parse_error_values flags) fs = (None, fs')"
    "\<forall>kind\<in>set (parse_error_values flags). fs' (replace_space (?d @ kind @ ''.csv'')) \<noteq> None"
    by blast
  from stdout_succeeds [OF assms(1,2)] obtain h' out where "stdout h c = (None, h', c, out)"
    by blast
  with fs' assms(3) show ?thesis
    by (simp add: Exporter_init_def Let_def)
qed

subsection \<open>parse_error_values\<close>

text \<open>
  C8. The claim: the result holds only labels among \<^verbatim>\<open>true positives\<close>,
  \<^verbatim>\<open>false positives\<close>, \<^verbatim>\<open>false negatives\<close>, \<^verbatim>\<open>summarize\<close>, and nothing derived
  from the leave-maps flag. The loop appends every key whose flag is set and only the
  keys t, f, n, s are replaced: with the leave-maps flag set, its key \<^verbatim>\<open>'l'\<close> stays in
  the list.
\<close>

theorem parse_error_values_leave_maps:
  "parse_error_values leave_maps_flags
     = [''l'', ''true positives'', ''false positives'', ''false negatives'']"
  by (simp add: parse_error_values_def leave_maps_flags_def replace_flag_def)

lemma replace_flag_keeps: "x \<noteq> k \<Longrightarrow> x \<in> set evs \<Longrightarrow> x \<in> set (replace_flag k label evs)"
  by (simp add: replace_flag_def)

lemma parse_error_values_keeps_other_flags:
  assumes "(k, True) \<in> set flags" and "map_of flags k = Some True"
    and "k \<notin> {''t'', ''f'', ''n'', ''s''}"
  shows "k \<in> set (parse_error_values flags)"
proof -
  from assms(1,2) have "k \<in> set (filter (\<lambda>error_flag. map_of flags error_flag = Some True) (map fst flags))"
    by force
  with assms(3) show ?thesis
    by (simp add: parse_error_values_def Let_def replace_flag_keeps)
qed

text \<open>
  For a dictionary (distinct keys) the result is: the set keys other than t, f, n, s in
  the dictionary's order, then the labels of the set flags among t, f, n, s in that
  order. When no other key is set, it is the list of the selected labels.
\<close>

lemma replace_flag_split:
  assumes "distinct xs" and "k \<notin> set ls"
  shows "replace_flag k label (xs @ ls)
           = removeAll k xs @ ls @ (if k \<in> set xs then [label] else [])"
  using assms
  by (simp add: replace_flag_def remove1_append distinct_remove1_removeAll)

lemma parse_error_values_eq:
  assumes "distinct (map fst flags)"
  shows "parse_error_values flags
     = filter (\<lambda>k. k \<notin> {''t'', ''f'', ''n'', ''s''})
         (filter (\<lambda>k. map_of flags k = Some True) (map fst flags))
       @ (if map_of flags ''t'' = Some True then [''true positives''] else [])
       @ (if map_of flags ''f'' = Some True then [''false positives''] else [])
       @ (if map_of flags ''n'' = Some True then [''false negatives''] else [])
       @ (if map_of flags ''s'' = Some True then [''summarize''] else [])"
proof -
  let ?evs0 = "filter (\<lambda>k. map_of flags k = Some True) (map fst flags)"
  let ?T = "if map_of flags ''t'' = Some True then [''true positives''] else []"
  let ?F = "if map_of flags ''f'' = Some True then [''false positives''] else []"
  let ?N = "if map_of flags ''n'' = Some True then [''false negatives''] else []"
  let ?S = "if map_of flags ''s'' = Some True then [''summarize''] else []"
  let ?A1 = "removeAll ''t'' ?evs0"
  let ?A2 = "removeAll ''f'' ?A1"
  let ?A3 = "removeAll ''n'' ?A2"
  let ?A4 = "removeAll ''s'' ?A3"
  have d0: "distinct ?evs0" using assms by simp
  have mem: "k \<in> set ?evs0 \<longleftrightarrow> map_of flags k = Some True" for k
    by (auto dest: map_of_SomeD intro: rev_image_eqI)
  have s1: "replace_flag ''t'' ''true positives'' ?evs0 = ?A1 @ ?T"
    using replace_flag_split [OF d0, of "''t''" "[]" "''true positives''"]
    unfolding mem by simp
  have s2: "replace_flag ''f'' ''false positives'' (?A1 @ ?T) = ?A2 @ ?T @ ?F"
    using replace_flag_split [of ?A1 "''f''" ?T "''false positives''"] d0 mem [of "''f''"]
    by (simp add: distinct_removeAll)
  have s3: "replace_flag ''n'' ''false negatives'' (?A2 @ ?T @ ?F) = ?A3 @ ?T @ ?F @ ?N"
    using replace_flag_split [of ?A2 "''n''" "?T @ ?F" "''false negatives''"] d0 mem [of "''n''"]
    by (simp add: distinct_removeAll)
  have s4: "replace_flag ''s'' ''summarize'' (?A3 @ ?T @ ?F @ ?N) = ?A4 @ ?T @ ?F @ ?N @ ?S"
    using replace_flag_split [of ?A3 "''s''" "?T @ ?F @ ?N" "''summarize''"] d0 mem [of "''s''"]
    by (simp add: distinct_removeAll)
  have a4: "?A4 = filter (\<lambda>k. k \<notin> {''t'', ''f'', ''n'', ''s''}) ?evs0"
    by (simp add: removeAll_filter_not_eq) (rule filter_cong, auto)
  show ?thesis
    unfolding parse_error_values_def Let_def s1 s2 s3 s4 a4 ..
qed

lemma parse_error_values_selected:
  assumes "distinct (map fst flags)"
    and "\<forall>k. map_of flags k = Some True \<longrightarrow> k \<in> {''t'', ''f'', ''n'', ''s''}"
  shows "parse_error_values flags
     = (if map_of flags ''t'' = Some True then [''true positives''] else [])
       @ (if map_of flags ''f'' = Some True then [''false positives''] else [])
       @ (if map_of flags ''n'' = Some True then [''false negatives''] else [])
       @ (if map_of flags ''s'' = Some True then [''summarize''] else [])"
proof -
  from assms(2) have "filter (\<lambda>k. k \<notin> {''t'', ''f'', ''n'', ''s''})
         (filter (\<lambda>k. map_of flags k = Some True) (map fst flags)) = []"
    by (auto simp: filter_empty_conv)
  with parse_error_values_eq [OF assms(1)] show ?thesis by simp
qed

subsection \<open>PeakAnalyst.find_peaks\<close>

lemma sweep_step_leave:
  "map_of flags ''l'' = Some leave \<Longrightarrow>
   \<exists>acts. sweep_step flags d w s
     = Inr ((w, s, ''p_'' @ str_int w @ ''_'' @ py_str s @ ''_peaks''), acts)"
  by (simp add: sweep_step_def cleanup_def Let_def)

lemma sweep_thresholds_found:
  "map_of flags ''l'' = Some leave \<Longrightarrow>
   \<exists>acts. sweep_thresholds flags d w sts (found, acts0)
     = Inr (found @ map (\<lambda>s. (w, s, ''p_'' @ str_int w @ ''_'' @ py_str s @ ''_peaks'')) sts, acts)"
proof (induction sts arbitrary: found acts0)
  case Nil
  then show ?case by simp
next
  case (Cons s sts)
  from sweep_step_leave [OF Cons.prems] obtain acts where
    step: "sweep_step flags d w s
             = Inr ((w, s, ''p_'' @ str_int w @ ''_'' @ py_str s @ ''_peaks''), acts)"
    by blast
  from Cons.IH [OF Cons.prems,
      of "found @ [(w, s, ''p_'' @ str_int w @ ''_'' @ py_str s @ ''_peaks'')]" "acts0 @ acts"]
    step show ?case by simp
qed

lemma sweep_windows_found:
  "map_of flags ''l'' = Some leave \<Longrightarrow>
   \<exists>acts. sweep_windows flags d ws sts (found, acts0)
     = Inr (found @ concat (map (\<lambda>w. map (\<lambda>s. (w, s, ''p_'' @ str_int w @ ''_'' @ py_str s @ ''_peaks'')) sts) ws), acts)"
proof (induction ws arbitrary: found acts0)
  case Nil
  then show ?case by simp
next
  case (Cons w ws)
  from sweep_thresholds_found [OF Cons.prems, of d w sts found acts0] obtain acts where
    inner: "sweep_thresholds flags d w sts (found, acts0)
      = Inr (found @ map (\<lambda>s. (w, s, ''p_'' @ str_int w @ ''_'' @ py_str s @ ''_peaks'')) sts, acts)"
    by blast
  from Cons.IH [OF Cons.prems,
      of "found @ map (\<lambda>s. (w, s, ''p_'' @ str_int w @ ''_'' @ py_str s @ ''_peaks'')) sts" acts]
    inner show ?case by simp
qed

text \<open>
  C9. For a flag dictionary that has the key \<^verbatim>\<open>'l'\<close> (the parser's always has),
  \<^verbatim>\<open>find_peaks\<close> returns, and \<^verbatim>\<open>found_peaks\<close> then is the list of the triples
  (window size, slope threshold, \<^verbatim>\<open>'p_' + str(window) + '_' + str(threshold) + '_peaks'\<close>),
  one per pair of a window size and a slope threshold, window sizes in the outer and
  slope thresholds in the inner order; whatever the list held before is dropped.
\<close>

theorem find_peaks_records:
  assumes "map_of flags ''l'' = Some leave"
  shows "\<exists>a' acts. find_peaks h flags a = Inr (a', acts)
     \<and> found_peaks a'
         = concat (map (\<lambda>w. map (\<lambda>s. (w, s, ''p_'' @ str_int w @ ''_'' @ py_str s @ ''_peaks''))
                               (h (analyst_slope_thresholds a)))
                       (analyst_window_sizes a))
     \<and> length (found_peaks a')
         = length (analyst_window_sizes a) * length (h (analyst_slope_thresholds a))"
proof -
  let ?sts = "h (analyst_slope_thresholds a)"
  let ?expected = "concat (map (\<lambda>w. map (\<lambda>s. (w, s, ''p_'' @ str_int w @ ''_'' @ py_str s @ ''_peaks'')) ?sts)
                       (analyst_window_sizes a))"
  have len: "length (concat (map (\<lambda>w. map (f w) sts) ws)) = length ws * length sts"
    for f :: "int \<Rightarrow> pyval \<Rightarrow> int \<times> pyval \<times> string" and sts ws
    by (induction ws) simp_all
  from sweep_windows_found [OF assms, of "dem a" "analyst_window_sizes a" ?sts "[]"]
  obtain acts where "sweep_windows flags (dem a) (analyst_window_sizes a) ?sts
      ([], [WriteFile ''.tmp_reclass.txt''
              (''0 thru 5 = NULL'' @ [CHR 0x0A] @ ''* = *'' @ [CHR 0x0A] @ ''end'' @ [CHR 0x0A])])
    = Inr ([] @ ?expected, acts)"
    by blast
  then show ?thesis
    by (simp add: find_peaks_def Let_def len)
qed

theorem find_peaks_records_witness:
  "map_of example_flags ''l'' = Some False
   \<and> (\<exists>a' acts. find_peaks example_heap example_flags example_analyst = Inr (a', acts)
        \<and> found_peaks a'
            = [(3, PInt 1, ''p_3_1_peaks''), (3, PInt 2, ''p_3_2_peaks''),
               (5, PInt 1, ''p_5_1_peaks''), (5, PInt 2, ''p_5_2_peaks'')])"
  using find_peaks_records [of example_flags False example_heap example_analyst]
  by (auto simp add: example_flags_def example_heap_def example_analyst_def py_str_def
      str_int_examples)

end
